theory Spec2Isabelle
  imports Main
begin

section \<open>JavaScript values\<close>

text \<open>
  Numbers are the integers (exact in a double below \<open>2^53\<close>) and \<open>NaN\<close>; fractions and
  infinities are not modelled. \<open>jsprim\<close> holds the values \<open>payload.runs\<close> may take in the
  model: absent (\<open>undefined\<close>), \<open>null\<close>, a boolean or a number. A string there is outside
  the model (\<open>+=\<close> would concatenate and \<open>Number\<close> would parse it). \<open>payload.status\<close>
  may also be a string.
\<close>

datatype jsnum = Num int | NaN

datatype jsprim = Undefined | Null | Bool bool | Number jsnum

datatype jsval = Prim jsprim | Str string

text \<open>\<open>Number(v)\<close>, and the coercion \<open>+\<close> and \<open>>\<close> apply to an operand that is not a string.\<close>

fun ToNumber :: "jsprim \<Rightarrow> jsnum" where
  "ToNumber Undefined = NaN"
| "ToNumber Null = Num 0"
| "ToNumber (Bool b) = Num (if b then 1 else 0)"
| "ToNumber (Number n) = n"

text \<open>\<open>a + b\<close> and \<open>a > b\<close> on numbers: \<open>NaN\<close> absorbs a sum and fails every comparison.\<close>

fun js_add :: "jsnum \<Rightarrow> jsnum \<Rightarrow> jsnum" where
  "js_add (Num a) (Num b) = Num (a + b)"
| "js_add _ _ = NaN"

fun js_gt :: "jsnum \<Rightarrow> jsnum \<Rightarrow> bool" where
  "js_gt (Num a) (Num b) = (a > b)"
| "js_gt _ _ = False"

text \<open>\<open>a % b\<close> on integers with \<open>b \<noteq> 0\<close>: the remainder has the sign of the dividend.\<close>

definition js_rem :: "int \<Rightarrow> int \<Rightarrow> int" where
  "js_rem a b = sgn a * (\<bar>a\<bar> mod \<bar>b\<bar>)"

text \<open>\<open>n || d\<close> for a number \<open>n\<close>: \<open>NaN\<close> and \<open>0\<close> are falsy.\<close>

fun or_num :: "jsnum \<Rightarrow> int \<Rightarrow> int" where
  "or_num NaN d = d"
| "or_num (Num k) d = (if k = 0 then d else k)"

text \<open>Truthiness, for \<open>payload.status || 'Status Update'\<close>.\<close>

fun truthy :: "jsval \<Rightarrow> bool" where
  "truthy (Prim Undefined) = False"
| "truthy (Prim Null) = False"
| "truthy (Prim (Bool b)) = b"
| "truthy (Prim (Number NaN)) = False"
| "truthy (Prim (Number (Num k))) = (k \<noteq> 0)"
| "truthy (Str s) = (s \<noteq> [])"

text \<open>
  \<open>s.toLowerCase()\<close> and \<open>s.includes(p)\<close>. A string is its list of bytes; the ASCII
  capitals \<open>A\<close> to \<open>Z\<close> (codes 65 to 90) get bit 5 set, every other byte stays.
\<close>

fun toLowerCase_char :: "char \<Rightarrow> char" where
  "toLowerCase_char (Char b0 b1 b2 b3 b4 b5 b6 b7) =
     (if 65 \<le> (of_char (Char b0 b1 b2 b3 b4 b5 b6 b7) :: nat)
        \<and> (of_char (Char b0 b1 b2 b3 b4 b5 b6 b7) :: nat) \<le> 90
      then Char b0 b1 b2 b3 b4 True b6 b7
      else Char b0 b1 b2 b3 b4 b5 b6 b7)"

definition toLowerCase :: "string \<Rightarrow> string" where
  "toLowerCase s = map toLowerCase_char s"

fun str_includes :: "string \<Rightarrow> string \<Rightarrow> bool" where
  "str_includes [] p = (p = [])"
| "str_includes (c # cs) p = (take (length p) (c # cs) = p \<or> str_includes cs p)"

datatype error = TypeError

section \<open>Event model\<close>

text \<open>
  An event as the producers build it: \<open>{ type, payload, id, timestamp }\<close>. Of the payload
  the accumulators read \<open>runs\<close> and \<open>status\<close> only; a property that is absent reads as
  \<open>undefined\<close>. \<open>payload = None\<close> is an event without a payload.
\<close>

record payload =
  p_runs :: jsprim
  p_status :: jsval

record event =
  evt_id :: string
  timestamp :: string
  evt_type :: string
  payload :: "payload option"

section \<open>Ring buffer (App.js, class RingBuffer)\<close>

text \<open>
  A cell of the backing array. \<open>Array(limit).fill(null)\<close> starts every cell at
  \<open>null\<close>; reading an index past the end of a JavaScript array gives \<open>undefined\<close>;
  a pushed item is stored as it is.
\<close>

datatype 'a cell = CNull | CUndefined | Item 'a

record 'a RingBuffer =
  limit :: nat
  buf :: "'a cell list"
  head :: nat
  count :: nat

text \<open>\<^verbatim>\<open>constructor(limit)\<close>\<close>

definition RingBuffer_new :: "nat \<Rightarrow> 'a RingBuffer" where
  "RingBuffer_new n = \<lparr>limit = n, buf = replicate n CNull, head = 0, count = 0\<rparr>"

text \<open>
  \<^verbatim>\<open>a[i] = v\<close> and \<^verbatim>\<open>a[i]\<close> on a JavaScript array: a write past the end extends the
  array (the cells in between read as \<open>undefined\<close>), a read past the end is \<open>undefined\<close>.
\<close>

definition store :: "'a cell list \<Rightarrow> nat \<Rightarrow> 'a cell \<Rightarrow> 'a cell list" where
  "store a i v =
     (if i < length a then a[i := v]
      else a @ replicate (i - length a) CUndefined @ [v])"

definition fetch :: "'a cell list \<Rightarrow> nat \<Rightarrow> 'a cell" where
  "fetch a i = (if i < length a then a ! i else CUndefined)"

text \<open>
  \<^verbatim>\<open>push(item)\<close>. With \<open>limit = 0\<close> the index \<^verbatim>\<open>(head + count) % 0\<close> is \<open>NaN\<close>: the
  assignment sets the property named "NaN", no cell changes, \<open>count\<close> stays 0 and
  \<open>head\<close> becomes \<open>NaN\<close>, which \<open>nat\<close> does not hold; the buffer stays empty for
  \<open>toArrayDesc\<close>, and the model leaves the record as it is.
\<close>

definition push :: "'a RingBuffer \<Rightarrow> 'a \<Rightarrow> 'a RingBuffer" where
  "push rb item =
     (if limit rb = 0 then rb
      else
        let b = store (buf rb) ((head rb + count rb) mod limit rb) (Item item)
        in if count rb < limit rb
           then rb\<lparr>buf := b, count := count rb + 1\<rparr>
           else rb\<lparr>buf := b, head := (head rb + 1) mod limit rb\<rparr>)"

text \<open>
  \<^verbatim>\<open>toArrayDesc()\<close>: the loop over \<open>i = 0 .. count - 1\<close> builds a fresh array. In
  \<^verbatim>\<open>head + count - 1 - i + limit\<close> no subtraction goes below zero, since \<open>i < count\<close>,
  so the natural-number arithmetic is the JavaScript arithmetic.
\<close>

definition toArrayDesc :: "'a RingBuffer \<Rightarrow> 'a cell list" where
  "toArrayDesc rb =
     map (\<lambda>i. fetch (buf rb) ((head rb + count rb - 1 - i + limit rb) mod limit rb))
       [0..<count rb]"

text \<open>A sequence of \<open>push\<close> calls, first element first (\<^verbatim>\<open>q.forEach(e => buffer.push(e))\<close>).\<close>

definition pushAll :: "'a RingBuffer \<Rightarrow> 'a list \<Rightarrow> 'a RingBuffer" where
  "pushAll rb xs = foldl push rb xs"

section \<open>Scoreboard accumulator (App.js, applyEvent)\<close>

record summary =
  runs :: jsnum
  wickets :: int
  overs :: int
  balls :: int

text \<open>
  Lines 69 to 78 of \<open>applyEvent\<close>, on the locals \<open>runs\<close>, \<open>wickets\<close>, \<open>overs\<close>,
  \<open>balls\<close> after the \<open>switch\<close>: the over carry, the three caps, the object returned.
  \<open>Math.floor(balls / 6)\<close> is the floor division of \<open>int\<close>.
\<close>

definition carry_and_clamp :: "summary \<Rightarrow> summary" where
  "carry_and_clamp s =
     (let runs = runs s; wickets = wickets s; overs = overs s; balls = balls s;
          (overs, balls) =
             (if balls \<ge> 6 then (overs + balls div 6, js_rem balls 6) else (overs, balls));
          wickets = (if wickets > 10 then 10 else wickets);
          runs = (if js_gt runs (Num 300) then Num 300 else runs);
          overs = (if overs > 50 then 50 else overs)
      in \<lparr>runs = runs, wickets = wickets, overs = overs, balls = balls\<rparr>)"

text \<open>
  \<open>applyEvent(summary, evt)\<close>. \<open>evt.payload.runs\<close> on an event without payload throws a
  \<open>TypeError\<close>; the \<open>WICKET\<close> case does not read the payload; every other type
  returns the summary it was given.
\<close>

definition applyEvent :: "summary \<Rightarrow> event \<Rightarrow> error + summary" where
  "applyEvent summary evt =
     (if evt_type evt = ''BALL'' \<or> evt_type evt = ''BOUNDARY'' then
        (case payload evt of
           None \<Rightarrow> Inl TypeError
         | Some p \<Rightarrow>
             Inr (carry_and_clamp
               (summary\<lparr>runs := js_add (runs summary) (ToNumber (p_runs p)),
                        balls := balls summary + 1\<rparr>)))
      else if evt_type evt = ''WICKET'' then
        Inr (carry_and_clamp
          (summary\<lparr>wickets := wickets summary + 1, balls := balls summary + 1\<rparr>))
      else Inr summary)"

subsection \<open>The carry and the clamps as the specification words them\<close>

text \<open>
  "While \<open>balls \<ge> 6\<close>: \<open>overs += 1\<close>, \<open>balls -= 6\<close>", then
  "\<open>wickets = min(wickets, 10)\<close>, \<open>runs = min(runs, 300)\<close>, \<open>overs = min(overs, 50)\<close>".
  The minimum of \<open>NaN\<close> and a number is \<open>NaN\<close>, as for \<open>Math.min\<close>.
\<close>

function over_carry :: "int \<times> int \<Rightarrow> int \<times> int" where
  "over_carry (o_count, b) = (if 6 \<le> b then over_carry (o_count + 1, b - 6) else (o_count, b))"
  by pat_completeness auto
termination
  by (relation "measure (\<lambda>(o_count, b). nat b)") auto

fun min_num :: "jsnum \<Rightarrow> int \<Rightarrow> jsnum" where
  "min_num NaN k = NaN"
| "min_num (Num n) k = Num (min n k)"

definition spec_carry :: "summary \<Rightarrow> summary" where
  "spec_carry s =
     (case over_carry (overs s, balls s) of (o_count, b) \<Rightarrow> s\<lparr>overs := o_count, balls := b\<rparr>)"

definition spec_clamp :: "summary \<Rightarrow> summary" where
  "spec_clamp s =
     ((s\<lparr>wickets := min (wickets s) 10\<rparr>)\<lparr>runs := min_num (runs s) 300\<rparr>)\<lparr>overs := min (overs s) 50\<rparr>"

text \<open>The summary bounds of the specification's data model.\<close>

fun runs_in_range :: "jsnum \<Rightarrow> bool" where
  "runs_in_range NaN = False"
| "runs_in_range (Num r) = (0 \<le> r \<and> r \<le> 300)"

definition in_range :: "summary \<Rightarrow> bool" where
  "in_range s =
     (0 \<le> balls s \<and> balls s \<le> 5 \<and> 0 \<le> wickets s \<and> wickets s \<le> 10
      \<and> runs_in_range (runs s) \<and> 0 \<le> overs s \<and> overs s \<le> 50)"

section \<open>Pipeline coordinator (App.js, the two intervals of App)\<close>

text \<open>
  \<open>a.splice(start)\<close> takes the elements from \<open>start\<close> on out of the array and returns
  them: the pair is (removed, what is left in the array).
\<close>

definition splice :: "'a list \<Rightarrow> nat \<Rightarrow> 'a list \<times> 'a list" where
  "splice a start = (drop start a, take start a)"

text \<open>
  The updaters \<open>s => applyEvent(s, e)\<close> queued by \<open>setSummary\<close>, run in the order
  they were queued; an exception ends the run.
\<close>

fun applyAll :: "summary \<Rightarrow> event list \<Rightarrow> error + summary" where
  "applyAll s [] = Inr s"
| "applyAll s (e # es) =
     (case applyEvent s e of Inl err \<Rightarrow> Inl err | Inr s' \<Rightarrow> applyAll s' es)"

text \<open>
  The state of \<open>App\<close>: the queue (\<open>queueRef.current\<close>), the ring buffer, the two React
  states, and how often each setter has been called (a publication is a setter call).
\<close>

record coordinator =
  queueRef :: "event list"
  buffer :: "event RingBuffer"
  summaryState :: summary
  feedState :: "event cell list"
  setSummary_calls :: nat
  setFeed_calls :: nat

text \<open>
  The callback of the 200 ms interval. React runs the updaters queued by \<open>setSummary\<close>
  in order when it next renders; the model runs them within the tick, and the tick's
  result is the error when one of them throws.
\<close>

definition drain_tick :: "coordinator \<Rightarrow> error + coordinator" where
  "drain_tick c =
     (let (q, left) = splice (queueRef c) 0 in
      if length q \<noteq> 0 then
        (let b = pushAll (buffer c) q in
         case applyAll (summaryState c) q of
           Inl err \<Rightarrow> Inl err
         | Inr s \<Rightarrow>
             Inr (c\<lparr>queueRef := left, buffer := b,
                    summaryState := s, setSummary_calls := setSummary_calls c + length q,
                    feedState := toArrayDesc b, setFeed_calls := setFeed_calls c + 1\<rparr>))
      else Inr (c\<lparr>queueRef := left\<rparr>))"

text \<open>The callback of the 3000 ms interval, given the event it built.\<close>

definition producer_tick :: "coordinator \<Rightarrow> event \<Rightarrow> coordinator" where
  "producer_tick c evt = c\<lparr>queueRef := queueRef c @ [evt]\<rparr>"

text \<open>A run of the single thread: the callbacks in the order the timers fire them.\<close>

datatype tick = Producer event | Drain

fun run :: "coordinator \<Rightarrow> tick list \<Rightarrow> error + coordinator" where
  "run c [] = Inr c"
| "run c (Producer evt # ts) = run (producer_tick c evt) ts"
| "run c (Drain # ts) = (case drain_tick c of Inl err \<Rightarrow> Inl err | Inr c' \<Rightarrow> run c' ts)"

fun enqueued :: "tick list \<Rightarrow> event list" where
  "enqueued [] = []"
| "enqueued (Producer evt # ts) = evt # enqueued ts"
| "enqueued (Drain # ts) = enqueued ts"

text \<open>Folding batch after batch.\<close>

fun applyBatches :: "summary \<Rightarrow> event list list \<Rightarrow> error + summary" where
  "applyBatches s [] = Inr s"
| "applyBatches s (b # bs) =
     (case applyAll s b of Inl err \<Rightarrow> Inl err | Inr s' \<Rightarrow> applyBatches s' bs)"

section \<open>Reducer accumulator (CommentaryFeed.js, applyEvent)\<close>

text \<open>
  An entry of the commentary list: the event with \<open>_id\<close>, \<open>_receivedAt\<close> and, by case,
  \<open>displayRuns\<close> or \<open>_unknown\<close>. The \<open>_id\<close> string \<open>`${timestamp}-${n}`\<close> is kept as the
  pair of its two numbers.
\<close>

record entry =
  entry_event :: event
  entry_id :: "int \<times> nat"
  receivedAt :: int
  displayRuns :: "int option"
  unknown :: bool

record state =
  totalRuns :: int
  state_wickets :: int
  state_balls :: int
  commentary :: "entry list"
  matchStatus :: string

text \<open>\<open>const { type, payload = {} } = event\<close>: an absent payload is the empty object.\<close>

definition payload_or_empty :: "event \<Rightarrow> payload" where
  "payload_or_empty event =
     (case payload event of
        None \<Rightarrow> \<lparr>p_runs = Undefined, p_status = Prim Undefined\<rparr>
      | Some p \<Rightarrow> p)"

text \<open>\<open>payload.status || 'Status Update'\<close>\<close>

definition status_or_default :: "payload \<Rightarrow> jsval" where
  "status_or_default p = (if truthy (p_status p) then p_status p else Str ''Status Update'')"

definition initialState :: state where
  "initialState =
     \<lparr>totalRuns = 0, state_wickets = 0, state_balls = 0, commentary = [], matchStatus = ''Live''\<rparr>"

definition addBall :: "'a state_scheme \<Rightarrow> 'a state_scheme" where
  "addBall s = s\<lparr>state_balls := state_balls s + 1\<rparr>"

text \<open>
  \<open>applyEvent(state, event)\<close>. \<open>now\<close> is what \<open>Date.now()\<close> returns and \<open>rnd\<close> what
  \<open>Math.floor(Math.random() * 1e6)\<close> returns in this call; the second component of the
  result is what the call passes to \<open>console.warn\<close>. A status that is truthy and not a
  string has no \<open>toLowerCase\<close>: the call throws a \<open>TypeError\<close>.
\<close>

definition applyEvent_reducer ::
    "int \<Rightarrow> nat \<Rightarrow> 'a state_scheme \<Rightarrow> event \<Rightarrow> error + ('a state_scheme \<times> string list list)" where
  "applyEvent_reducer now rnd state event =
     (let p = payload_or_empty event;
          baseEvent = \<lparr>entry_event = event, entry_id = (now, rnd), receivedAt = now,
                       displayRuns = None, unknown = False\<rparr>
      in
      if evt_type event = ''BALL'' then
        (let runs = or_num (ToNumber (p_runs p)) 0;
             next = state\<lparr>totalRuns := totalRuns state + runs,
                           commentary := baseEvent\<lparr>displayRuns := Some runs\<rparr> # commentary state\<rparr>
         in Inr (addBall next, []))
      else if evt_type event = ''BOUNDARY'' then
        (let runs = or_num (ToNumber (p_runs p)) 4;
             next = state\<lparr>totalRuns := totalRuns state + runs,
                           commentary := baseEvent\<lparr>displayRuns := Some runs\<rparr> # commentary state\<rparr>
         in Inr (addBall next, []))
      else if evt_type event = ''WICKET'' then
        (let next = state\<lparr>state_wickets := state_wickets state + 1,
                           commentary := baseEvent # commentary state\<rparr>
         in Inr (addBall next, []))
      else if evt_type event = ''MATCH_STATUS'' then
        (case status_or_default p of
           Prim v \<Rightarrow> Inl TypeError
         | Str status \<Rightarrow>
             (let next = state\<lparr>matchStatus := status,
                                commentary := baseEvent # commentary state\<rparr>
              in if str_includes (toLowerCase status) ''new innings''
                 then Inr (next\<lparr>totalRuns := 0, state_wickets := 0, state_balls := 0\<rparr>, [])
                 else Inr (next, [])))
      else
        Inr (state\<lparr>commentary := baseEvent\<lparr>unknown := True\<rparr> # commentary state\<rparr>,
             [[''Unknown event type received:'', evt_type event]]))"

section \<open>Auxiliary notions of the proofs\<close>

text \<open>
  The commentary list with the \<open>_id\<close> and \<open>_receivedAt\<close> of its newest entry replaced by
  those a call at time \<open>now\<close> with random draw \<open>rnd\<close> gives.
\<close>

definition restamp :: "int \<Rightarrow> nat \<Rightarrow> entry list \<Rightarrow> entry list" where
  "restamp now rnd es =
     (case es of [] \<Rightarrow> [] | x # xs \<Rightarrow> x\<lparr>entry_id := (now, rnd), receivedAt := now\<rparr> # xs)"

text \<open>The representation invariant of the class, and the cells it holds, oldest first.\<close>

definition rb_ok :: "'a RingBuffer \<Rightarrow> bool" where
  "rb_ok rb =
     (0 < limit rb \<and> length (buf rb) = limit rb \<and> head rb < limit rb \<and> count rb \<le> limit rb)"

definition held :: "'a RingBuffer \<Rightarrow> 'a cell list" where
  "held rb = map (\<lambda>j. fetch (buf rb) ((head rb + j) mod limit rb)) [0..<count rb]"

subsection \<open>Ring buffer: invariant and contents\<close>

lemma rb_ok_new: "0 < n \<Longrightarrow> rb_ok (RingBuffer_new n)"
  by (simp add: rb_ok_def RingBuffer_new_def)

lemma rb_ok_push: "rb_ok rb \<Longrightarrow> rb_ok (push rb x)"
  by (auto simp: rb_ok_def push_def store_def Let_def)


lemma toArrayDesc_held: "rb_ok rb \<Longrightarrow> toArrayDesc rb = rev (held rb)"
proof (rule nth_equalityI)
  show "length (toArrayDesc rb) = length (rev (held rb))"
    by (simp add: toArrayDesc_def held_def)
next
  fix i assume ok: "rb_ok rb" and "i < length (toArrayDesc rb)"
  then have i: "i < count rb" by (simp add: toArrayDesc_def)
  then have e: "head rb + count rb - 1 - i + limit rb = head rb + (count rb - 1 - i) + limit rb"
    by simp
  from i have j: "count rb - Suc i < count rb" by simp
  show "toArrayDesc rb ! i = rev (held rb) ! i"
    using i j by (simp add: toArrayDesc_def held_def rev_nth e del: upt_Suc) 
qed

lemma mod_neq: 
  fixes a b n :: nat
  assumes "a < b" "b - a < n" shows "a mod n \<noteq> b mod n"
proof
  assume "a mod n = b mod n"
  then have "n dvd b - a" using assms(1) by (metis less_imp_le_nat mod_eq_dvd_iff_nat)
  then have "n \<le> b - a" using assms(1) by (simp add: dvd_imp_le)
  with assms(2) show False by simp
qed

lemma held_push_room:
  assumes "rb_ok rb" "count rb < limit rb"
  shows "held (push rb x) = held rb @ [Item x]"
proof -
  let ?N = "limit rb" and ?h = "head rb" and ?c = "count rb"
  let ?k = "(?h + ?c) mod ?N"
  from assms have N: "0 < ?N" and len: "length (buf rb) = ?N" by (simp_all add: rb_ok_def)
  have k: "?k < ?N" using N by simp
  have p: "push rb x = rb\<lparr>buf := (buf rb)[?k := Item x], count := ?c + 1\<rparr>"
    using assms N k len by (simp add: push_def store_def Let_def)
  have old: "fetch ((buf rb)[?k := Item x]) ((?h + j) mod ?N) = fetch (buf rb) ((?h + j) mod ?N)"
    if "j < ?c" for j
  proof -
    have "(?h + j) mod ?N \<noteq> ?k" using that assms(2) by (intro mod_neq) simp_all
    then show ?thesis by (simp add: fetch_def)
  qed
  have new: "fetch ((buf rb)[?k := Item x]) ?k = Item x"
    using k len by (simp add: fetch_def)
  show ?thesis
    unfolding p held_def using old new by simp
qed

lemma held_push_full:
  assumes "rb_ok rb" "count rb = limit rb"
  shows "held (push rb x) = tl (held rb) @ [Item x]"
proof -
  let ?N = "limit rb" and ?h = "head rb"
  from assms have N: "0 < ?N" and len: "length (buf rb) = ?N" and h: "?h < ?N"
    by (simp_all add: rb_ok_def)
  have p: "push rb x = rb\<lparr>buf := (buf rb)[?h := Item x], head := (?h + 1) mod ?N\<rparr>"
    using assms N h len by (simp add: push_def store_def Let_def)
  show ?thesis
  proof (rule nth_equalityI)
    show "length (held (push rb x)) = length (tl (held rb) @ [Item x])"
      using N assms(2) by (simp add: p held_def)
  next
    fix j assume "j < length (held (push rb x))"
    then have j: "j < ?N" using assms(2) by (simp add: p held_def)
    have idx: "((?h + 1) mod ?N + j) mod ?N = (?h + (j + 1)) mod ?N"
      by (simp add: mod_add_left_eq add.assoc)
    show "held (push rb x) ! j = (tl (held rb) @ [Item x]) ! j"
    proof (cases "j + 1 < ?N")
      case True
      have "?h mod ?N \<noteq> (?h + (j + 1)) mod ?N" using True by (intro mod_neq) simp_all
      then have ne: "(?h + (j + 1)) mod ?N \<noteq> ?h" using h by simp
      have "held (push rb x) ! j = fetch ((buf rb)[?h := Item x]) (((?h + 1) mod ?N + j) mod ?N)"
        using j assms(2) by (simp add: p held_def del: upt_Suc)
      also have "\<dots> = fetch ((buf rb)[?h := Item x]) ((?h + (j + 1)) mod ?N)"
        by (simp only: idx)
      also have "\<dots> = fetch (buf rb) ((?h + (j + 1)) mod ?N)"
        using ne by (simp add: fetch_def)
      also have "\<dots> = held rb ! (j + 1)"
        using True assms(2) by (simp add: held_def del: upt_Suc)
      also have "\<dots> = (tl (held rb) @ [Item x]) ! j"
      proof -
        have "j < length (tl (held rb))" using True assms(2) by (simp add: held_def)
        then show ?thesis by (simp add: nth_append nth_tl)
      qed
      finally show ?thesis .
    next
      case False
      with j have e: "j + 1 = ?N" by simp
      then have last: "(?h + (j + 1)) mod ?N = ?h" using h by simp
      have "held (push rb x) ! j = fetch ((buf rb)[?h := Item x]) (((?h + 1) mod ?N + j) mod ?N)"
        using j assms(2) by (simp add: p held_def del: upt_Suc)
      also have "\<dots> = fetch ((buf rb)[?h := Item x]) ?h"
        by (simp only: idx last)
      also have "\<dots> = Item x"
        using h len by (simp add: fetch_def)
      finally have "held (push rb x) ! j = Item x" .
      moreover have "(tl (held rb) @ [Item x]) ! j = Item x"
      proof -
        have "length (tl (held rb)) = j" using e assms(2) by (simp add: held_def)
        then show ?thesis by (simp add: nth_append)
      qed
      ultimately show ?thesis by simp
    qed
  qed
qed

lemma count_push: "rb_ok rb \<Longrightarrow> count (push rb x) = min (limit rb) (count rb + 1)"
  by (auto simp: rb_ok_def push_def Let_def)

lemma limit_push: "limit (push rb x) = limit rb"
  by (simp add: push_def Let_def)

lemma pushes_state:
  "0 < n \<Longrightarrow> rb_ok (foldl push (RingBuffer_new n) xs) \<and> limit (foldl push (RingBuffer_new n) xs) = n
     \<and> count (foldl push (RingBuffer_new n) xs) = min n (length xs)
     \<and> held (foldl push (RingBuffer_new n) xs) = map Item (drop (length xs - n) xs)"
proof (induction xs rule: rev_induct)
  case Nil
  then show ?case by (simp add: rb_ok_new held_def) (simp add: RingBuffer_new_def)
next
  case (snoc x xs)
  let ?rb = "foldl push (RingBuffer_new n) xs"
  from snoc have ok: "rb_ok ?rb" and lim: "limit ?rb = n" and c: "count ?rb = min n (length xs)"
    and hd: "held ?rb = map Item (drop (length xs - n) xs)" by simp_all
  have "held (push ?rb x) = map Item (drop (length (xs @ [x]) - n) (xs @ [x]))"
  proof (cases "length xs < n")
    case True
    then show ?thesis using held_push_room[OF ok, of x] c lim hd by simp
  next
    case False
    then have "count ?rb = limit ?rb" using c lim by simp
    moreover from False snoc.prems have "Suc (length xs) - n = Suc (length xs - n)"
      and "Suc (length xs - n) \<le> length xs" by simp_all
    ultimately show ?thesis
      using held_push_full[OF ok, of x] hd by (simp add: drop_Suc tl_drop flip: map_tl)
  qed
  then show ?case using ok lim c by (simp add: rb_ok_push count_push limit_push)
qed


lemma pushAll_snapshot:
  assumes "0 < n"
  shows "toArrayDesc (pushAll (RingBuffer_new n) xs) = map Item (take n (rev xs))"
proof -
  from pushes_state[OF assms, of xs]
  have "toArrayDesc (pushAll (RingBuffer_new n) xs) = rev (map Item (drop (length xs - n) xs))"
    by (simp add: pushAll_def toArrayDesc_held)
  then show ?thesis by (simp add: take_rev rev_map)
qed

text \<open>
  C1. For every capacity \<open>n \<ge> 1\<close> and every sequence \<open>xs\<close> of pushes into a new buffer,
  the buffer holds at most \<open>n\<close> events (\<open>count \<le> n\<close>, and \<open>count\<close> is the length of the
  snapshot), and \<open>toArrayDesc\<close> returns the events held, the last \<open>min n (length xs)\<close>
  pushed ones, newest first: the first \<open>n\<close> elements of the reversed push sequence.
\<close>

theorem ring_buffer_bounded_newest_first:
  assumes "1 \<le> n"
  shows "count (pushAll (RingBuffer_new n) xs) \<le> n
       \<and> count (pushAll (RingBuffer_new n) xs) = min n (length xs)
       \<and> length (toArrayDesc (pushAll (RingBuffer_new n) xs)) = count (pushAll (RingBuffer_new n) xs)
       \<and> toArrayDesc (pushAll (RingBuffer_new n) xs) = map Item (take n (rev xs))"
proof -
  from assms have n: "0 < n" by simp
  from pushes_state[OF n, of xs] pushAll_snapshot[OF n, of xs]
  show ?thesis by (simp add: pushAll_def)
qed

theorem ring_buffer_bounded_newest_first_witness:
  "(1::nat) \<le> 2
   \<and> count (pushAll (RingBuffer_new 2) [10, 20, 30::nat]) = 2
   \<and> toArrayDesc (pushAll (RingBuffer_new 2) [10, 20, 30::nat]) = [Item 30, Item 20]"
  using ring_buffer_bounded_newest_first[of 2 "[10, 20, 30::nat]"] by simp

text \<open>
  C6. For every capacity \<open>n \<ge> 1\<close> and \<open>k \<ge> 1\<close>, after \<open>n + k\<close> pushes into a new buffer
  of capacity \<open>n\<close> the buffer is full and holds exactly the last \<open>n\<close> pushed events (the
  first \<open>k\<close> are gone), newest first; and a push into a buffer that has received at least
  \<open>n\<close> events puts the new event in front of the snapshot and drops its last element,
  the oldest event held, and nothing else.
\<close>

theorem ring_buffer_keeps_last_n:
  fixes xs :: "'a list"
  assumes "1 \<le> n" and "1 \<le> k" and "length xs = n + k"
  shows "count (pushAll (RingBuffer_new n) xs) = n
       \<and> toArrayDesc (pushAll (RingBuffer_new n) xs) = map Item (rev (drop k xs))
       \<and> (\<forall>(ys::'a list) y. n \<le> length ys \<longrightarrow>
            toArrayDesc (push (pushAll (RingBuffer_new n) ys) y)
              = Item y # butlast (toArrayDesc (pushAll (RingBuffer_new n) ys)))"
proof -
  from assms have n: "0 < n" by simp
  have c: "count (pushAll (RingBuffer_new n) xs) = n"
    using pushes_state[OF n, of xs] assms(3) by (simp add: pushAll_def)
  have "length xs - n = k" using assms(3) by simp
  then have s: "toArrayDesc (pushAll (RingBuffer_new n) xs) = map Item (rev (drop k xs))"
    using pushAll_snapshot[OF n, of xs] by (simp add: take_rev)
  have e: "toArrayDesc (push (pushAll (RingBuffer_new n) ys) y)
             = Item y # butlast (toArrayDesc (pushAll (RingBuffer_new n) ys))"
    if "n \<le> length ys" for ys y
  proof -
    have "push (pushAll (RingBuffer_new n) ys) y = pushAll (RingBuffer_new n) (ys @ [y])"
      by (simp add: pushAll_def)
    then have "toArrayDesc (push (pushAll (RingBuffer_new n) ys) y)
                 = map Item (take n (y # rev ys))"
      using pushAll_snapshot[OF n, of "ys @ [y]"] by simp
    also have "\<dots> = Item y # map Item (take (n - 1) (rev ys))"
      using n by (cases n) simp_all
    also have "take (n - 1) (rev ys) = butlast (take n (rev ys))"
      using that by (simp add: butlast_take)
    finally show ?thesis
      using pushAll_snapshot[OF n, of ys] by (simp add: map_butlast)
  qed
  from c s e show ?thesis by blast
qed

theorem ring_buffer_keeps_last_n_witness:
  "(1::nat) \<le> 2 \<and> (1::nat) \<le> 2 \<and> length [1, 2, 3, 4::nat] = 2 + 2
   \<and> toArrayDesc (pushAll (RingBuffer_new 2) [1, 2, 3, 4::nat]) = [Item 4, Item 3]
   \<and> toArrayDesc (push (pushAll (RingBuffer_new 2) [1, 2::nat]) 3) = [Item 3, Item 2]"
proof -
  have "toArrayDesc (pushAll (RingBuffer_new 2) [1, 2::nat]) = [Item 2, Item 1]"
    by code_simp
  moreover have t: "toArrayDesc (pushAll (RingBuffer_new 2) [1, 2, 3, 4::nat]) = [Item 4, Item 3]
      \<and> (\<forall>ys y. 2 \<le> length ys \<longrightarrow>
            toArrayDesc (push (pushAll (RingBuffer_new 2) ys) (y::nat))
              = Item y # butlast (toArrayDesc (pushAll (RingBuffer_new 2) ys)))"
    using ring_buffer_keeps_last_n[of 2 2 "[1, 2, 3, 4::nat]"] by simp
  moreover from t have "2 \<le> length [1, 2::nat] \<longrightarrow>
      toArrayDesc (push (pushAll (RingBuffer_new 2) [1, 2::nat]) 3)
        = Item 3 # butlast (toArrayDesc (pushAll (RingBuffer_new 2) [1, 2::nat]))"
    by blast
  ultimately show ?thesis by simp
qed

section \<open>Scoreboard accumulator: carry, clamps and bounds\<close>

lemma over_carry_closed:
  "over_carry (c, b) = (if 6 \<le> b then (c + b div 6, b mod 6) else (c, b))"
proof (induction "(c, b)" arbitrary: c b rule: over_carry.induct)
  case (1 c b)
  show ?case
  proof (cases "6 \<le> b")
    case True
    have d: "(b - 6) div 6 = b div 6 - 1" and m: "(b - 6) mod 6 = b mod 6"
      by presburger+
    show ?thesis
    proof (cases "6 \<le> b - 6")
      case True
      with 1 \<open>6 \<le> b\<close> d m show ?thesis by simp
    next
      case False
      with \<open>6 \<le> b\<close> have "b div 6 = 1" "b mod 6 = b - 6" by presburger+
      with 1 \<open>6 \<le> b\<close> False show ?thesis by simp
    qed
  next
    case False
    then show ?thesis by simp
  qed
qed

lemma js_rem_nonneg: "0 \<le> a \<Longrightarrow> 0 < b \<Longrightarrow> js_rem a b = a mod b"
  by (cases "a = 0") (simp_all add: js_rem_def)

lemma carry_and_clamp_spec: "carry_and_clamp s = spec_clamp (spec_carry s)"
proof (cases "runs s")
  case (Num r)
  then show ?thesis
    by (simp add: carry_and_clamp_def spec_clamp_def spec_carry_def over_carry_closed
        js_rem_nonneg Let_def min_def del: over_carry.simps)
next
  case NaN
  then show ?thesis
    by (simp add: carry_and_clamp_def spec_clamp_def spec_carry_def over_carry_closed
        js_rem_nonneg Let_def min_def del: over_carry.simps)
qed

lemma spec_clamp_idem: "spec_clamp (spec_clamp s) = spec_clamp s"
  by (cases "runs s") (simp_all add: spec_clamp_def)


text \<open>
  C2, as amended. For every summary, every \<open>WICKET\<close> event and every \<open>BALL\<close> or
  \<open>BOUNDARY\<close> event that has a payload, \<open>applyEvent\<close> returns the summary with the
  event's increments applied (\<open>payload.runs\<close> added to runs and one ball, or one wicket and
  one ball), then the over carry as the loop "while \<open>balls \<ge> 6\<close>: \<open>overs += 1\<close>,
  \<open>balls -= 6\<close>", then the clamps \<open>wickets = min(wickets, 10)\<close>, \<open>runs = min(runs, 300)\<close>,
  \<open>overs = min(overs, 50)\<close> in that order. For a \<open>BALL\<close> or \<open>BOUNDARY\<close> event without
  a payload \<open>applyEvent\<close> throws a \<open>TypeError\<close> and returns no summary. An event of any
  other type leaves every summary, so also a clamped one, unchanged, and clamping twice is
  clamping once.
\<close>

theorem applyEvent_carry_then_clamp:
  "(evt_type e = ''BALL'' \<or> evt_type e = ''BOUNDARY'' \<longrightarrow>
      applyEvent s e =
        (case payload e of
           None \<Rightarrow> Inl TypeError
         | Some p \<Rightarrow>
             Inr (spec_clamp (spec_carry
               (s\<lparr>runs := js_add (runs s) (ToNumber (p_runs p)), balls := balls s + 1\<rparr>)))))
   \<and> (evt_type e = ''WICKET'' \<longrightarrow>
      applyEvent s e =
        Inr (spec_clamp (spec_carry (s\<lparr>wickets := wickets s + 1, balls := balls s + 1\<rparr>))))
   \<and> (evt_type e \<noteq> ''BALL'' \<and> evt_type e \<noteq> ''BOUNDARY'' \<and> evt_type e \<noteq> ''WICKET'' \<longrightarrow>
      applyEvent s e = Inr s)
   \<and> spec_clamp (spec_clamp s) = spec_clamp s"
  by (simp add: applyEvent_def carry_and_clamp_spec spec_clamp_idem split: option.split)

theorem applyEvent_carry_then_clamp_witness:
  "applyEvent \<lparr>runs = Num 299, wickets = 10, overs = 3, balls = 5\<rparr>
     \<lparr>evt_id = ''7'', timestamp = ''10:15:00'', evt_type = ''BOUNDARY'',
      payload = Some \<lparr>p_runs = Number (Num 4), p_status = Prim Undefined\<rparr>\<rparr>
   = Inr (spec_clamp (spec_carry \<lparr>runs = Num 303, wickets = 10, overs = 3, balls = 6\<rparr>))
   \<and> spec_clamp (spec_carry \<lparr>runs = Num 303, wickets = 10, overs = 3, balls = 6\<rparr>)
     = \<lparr>runs = Num 300, wickets = 10, overs = 4, balls = 0\<rparr>
   \<and> applyEvent \<lparr>runs = Num 300, wickets = 10, overs = 4, balls = 0\<rparr>
     \<lparr>evt_id = ''8'', timestamp = ''10:15:03'', evt_type = ''WICKET'', payload = None\<rparr>
   = Inr (spec_clamp (spec_carry \<lparr>runs = Num 300, wickets = 11, overs = 4, balls = 1\<rparr>))
   \<and> spec_clamp (spec_carry \<lparr>runs = Num 300, wickets = 11, overs = 4, balls = 1\<rparr>)
     = \<lparr>runs = Num 300, wickets = 10, overs = 4, balls = 1\<rparr>
   \<and> applyEvent \<lparr>runs = Num 300, wickets = 10, overs = 4, balls = 1\<rparr>
     \<lparr>evt_id = ''9'', timestamp = ''10:15:06'', evt_type = ''UNKNOWN'', payload = None\<rparr>
   = Inr \<lparr>runs = Num 300, wickets = 10, overs = 4, balls = 1\<rparr>"
proof -
  have "spec_clamp (spec_carry \<lparr>runs = Num 303, wickets = 10, overs = 3, balls = 6\<rparr>)
     = \<lparr>runs = Num 300, wickets = 10, overs = 4, balls = 0\<rparr>"
    and "spec_clamp (spec_carry \<lparr>runs = Num 300, wickets = 11, overs = 4, balls = 1\<rparr>)
     = \<lparr>runs = Num 300, wickets = 10, overs = 4, balls = 1\<rparr>"
    by (simp_all add: spec_clamp_def spec_carry_def)
  then show ?thesis
    using applyEvent_carry_then_clamp[of
        "\<lparr>evt_id = ''7'', timestamp = ''10:15:00'', evt_type = ''BOUNDARY'',
      payload = Some \<lparr>p_runs = Number (Num 4), p_status = Prim Undefined\<rparr>\<rparr>"
        "\<lparr>runs = Num 299, wickets = 10, overs = 3, balls = 5\<rparr>"]
      applyEvent_carry_then_clamp[of
        "\<lparr>evt_id = ''8'', timestamp = ''10:15:03'', evt_type = ''WICKET'', payload = None\<rparr>"
        "\<lparr>runs = Num 300, wickets = 10, overs = 4, balls = 0\<rparr>"]
      applyEvent_carry_then_clamp[of
        "\<lparr>evt_id = ''9'', timestamp = ''10:15:06'', evt_type = ''UNKNOWN'', payload = None\<rparr>"
        "\<lparr>runs = Num 300, wickets = 10, overs = 4, balls = 1\<rparr>"]
    by simp
qed

text \<open>
  C2 as stated fails on events without a payload: for a \<open>BALL\<close> that has none,
  \<open>evt.payload.runs\<close> throws before any carry or clamp is applied.
\<close>

theorem applyEvent_no_payload_counterexample:
  "applyEvent \<lparr>runs = Num 0, wickets = 0, overs = 0, balls = 0\<rparr>
     \<lparr>evt_id = ''4'', timestamp = ''10:19:57'', evt_type = ''BALL'', payload = None\<rparr>
   = Inl TypeError"
  by (simp add: applyEvent_def)

lemma carry_and_clamp_upper:
  "balls (carry_and_clamp s) \<le> 5 \<and> wickets (carry_and_clamp s) \<le> 10
   \<and> overs (carry_and_clamp s) \<le> 50 \<and> \<not> js_gt (runs (carry_and_clamp s)) (Num 300)"
  by (cases "runs s") (auto simp: carry_and_clamp_def Let_def js_rem_nonneg)

lemma carry_and_clamp_in_range:
  assumes "0 \<le> balls s" "balls s \<le> 6" "0 \<le> wickets s" "0 \<le> overs s" "runs s = Num r" "0 \<le> r"
  shows "in_range (carry_and_clamp s)"
  using assms by (auto simp: in_range_def carry_and_clamp_def Let_def js_rem_nonneg)

text \<open>
  C3, as amended. For every summary within the bounds \<open>0 \<le> balls \<le> 5\<close>,
  \<open>0 \<le> wickets \<le> 10\<close>, \<open>0 \<le> runs \<le> 300\<close>, \<open>0 \<le> overs \<le> 50\<close> and every event that is
  not a \<open>BALL\<close> or \<open>BOUNDARY\<close> or whose \<open>payload.runs\<close> is a non-negative integer,
  \<open>applyEvent\<close> returns a summary within the same bounds. For every summary at all, the
  summary returned for a \<open>BALL\<close>, \<open>BOUNDARY\<close> or \<open>WICKET\<close> event has \<open>balls \<le> 5\<close>,
  \<open>wickets \<le> 10\<close>, \<open>overs \<le> 50\<close> and runs not above 300.
\<close>

theorem applyEvent_keeps_range:
  "(in_range s
      \<and> (evt_type e = ''BALL'' \<or> evt_type e = ''BOUNDARY'' \<longrightarrow>
           (\<exists>p r. payload e = Some p \<and> ToNumber (p_runs p) = Num r \<and> 0 \<le> r))
     \<longrightarrow> (\<exists>s'. applyEvent s e = Inr s' \<and> in_range s'))
   \<and> ((evt_type e = ''BALL'' \<or> evt_type e = ''BOUNDARY'' \<or> evt_type e = ''WICKET'')
        \<and> applyEvent s e = Inr t
     \<longrightarrow> balls t \<le> 5 \<and> wickets t \<le> 10 \<and> overs t \<le> 50 \<and> \<not> js_gt (runs t) (Num 300))"
proof (intro conjI impI)
  assume a: "in_range s
      \<and> (evt_type e = ''BALL'' \<or> evt_type e = ''BOUNDARY'' \<longrightarrow>
           (\<exists>p r. payload e = Some p \<and> ToNumber (p_runs p) = Num r \<and> 0 \<le> r))"
  then obtain q where q: "runs s = Num q" "0 \<le> q"
    by (cases "runs s") (simp_all add: in_range_def)
  consider (score) "evt_type e = ''BALL'' \<or> evt_type e = ''BOUNDARY''"
    | (wicket) "evt_type e = ''WICKET''"
    | (other) "evt_type e \<noteq> ''BALL''" "evt_type e \<noteq> ''BOUNDARY''" "evt_type e \<noteq> ''WICKET''"
    by blast
  then show "\<exists>s'. applyEvent s e = Inr s' \<and> in_range s'"
  proof cases
    case score
    with a obtain p r where p: "payload e = Some p" "ToNumber (p_runs p) = Num r" "0 \<le> r"
      by blast
    have "in_range (carry_and_clamp
        (s\<lparr>runs := js_add (runs s) (ToNumber (p_runs p)), balls := balls s + 1\<rparr>))"
      using a p q by (intro carry_and_clamp_in_range[where r = "q + r"]) (simp_all add: in_range_def)
    with score p show ?thesis by (auto simp: applyEvent_def)
  next
    case wicket
    have "in_range (carry_and_clamp (s\<lparr>wickets := wickets s + 1, balls := balls s + 1\<rparr>))"
      using a q by (intro carry_and_clamp_in_range[where r = q]) (simp_all add: in_range_def)
    with wicket show ?thesis by (simp add: applyEvent_def)
  next
    case other
    with a show ?thesis by (simp add: applyEvent_def)
  qed
next
  assume b: "(evt_type e = ''BALL'' \<or> evt_type e = ''BOUNDARY'' \<or> evt_type e = ''WICKET'')
        \<and> applyEvent s e = Inr t"
  then obtain u where "t = carry_and_clamp u"
    by (auto simp: applyEvent_def split: option.splits if_splits)
  then show "balls t \<le> 5" "wickets t \<le> 10" "overs t \<le> 50" "\<not> js_gt (runs t) (Num 300)"
    using carry_and_clamp_upper[of u] by simp_all
qed

theorem applyEvent_keeps_range_witness:
  "in_range \<lparr>runs = Num 299, wickets = 10, overs = 50, balls = 5\<rparr>
   \<and> applyEvent \<lparr>runs = Num 299, wickets = 10, overs = 50, balls = 5\<rparr>
       \<lparr>evt_id = ''7'', timestamp = ''10:15:00'', evt_type = ''BOUNDARY'',
        payload = Some \<lparr>p_runs = Number (Num 6), p_status = Prim Undefined\<rparr>\<rparr>
     = Inr \<lparr>runs = Num 300, wickets = 10, overs = 50, balls = 0\<rparr>
   \<and> in_range \<lparr>runs = Num 300, wickets = 10, overs = 50, balls = 0\<rparr>"
proof -
  let ?s = "\<lparr>runs = Num 299, wickets = 10, overs = 50, balls = 5\<rparr>"
  let ?e = "\<lparr>evt_id = ''7'', timestamp = ''10:15:00'', evt_type = ''BOUNDARY'',
        payload = Some \<lparr>p_runs = Number (Num 6), p_status = Prim Undefined\<rparr>\<rparr>"
  have r: "in_range ?s" by (simp add: in_range_def)
  have v: "applyEvent ?s ?e = Inr \<lparr>runs = Num 300, wickets = 10, overs = 50, balls = 0\<rparr>"
    by (simp add: applyEvent_def carry_and_clamp_def js_rem_def)
  from applyEvent_keeps_range[of ?s ?e "\<lparr>runs = Num 300, wickets = 10, overs = 50, balls = 0\<rparr>"] r v
  have "(\<exists>s'. applyEvent ?s ?e = Inr s' \<and> in_range s')
      \<and> balls \<lparr>runs = Num 300, wickets = 10, overs = 50, balls = 0\<rparr> \<le> 5"
    by simp
  with r v show ?thesis by simp
qed

text \<open>
  C3 as stated fails. A summary outside the bounds passes through a \<open>MATCH_STATUS\<close> event
  as it is, and a \<open>BALL\<close> with \<open>runs: -1\<close> takes the zero summary to \<open>runs = -1\<close>:
  \<open>applyEvent\<close> caps from above only.
\<close>

theorem applyEvent_range_counterexample:
  "applyEvent \<lparr>runs = Num 301, wickets = 11, overs = 51, balls = 6\<rparr>
       \<lparr>evt_id = ''3'', timestamp = ''10:15:00'', evt_type = ''MATCH_STATUS'',
        payload = Some \<lparr>p_runs = Undefined, p_status = Str ''Innings Break''\<rparr>\<rparr>
     = Inr \<lparr>runs = Num 301, wickets = 11, overs = 51, balls = 6\<rparr>
   \<and> \<not> in_range \<lparr>runs = Num 301, wickets = 11, overs = 51, balls = 6\<rparr>
   \<and> applyEvent \<lparr>runs = Num 0, wickets = 0, overs = 0, balls = 0\<rparr>
       \<lparr>evt_id = ''4'', timestamp = ''10:15:03'', evt_type = ''BALL'',
        payload = Some \<lparr>p_runs = Number (Num (- 1)), p_status = Prim Undefined\<rparr>\<rparr>
     = Inr \<lparr>runs = Num (- 1), wickets = 0, overs = 0, balls = 1\<rparr>
   \<and> \<not> in_range \<lparr>runs = Num (- 1), wickets = 0, overs = 0, balls = 1\<rparr>"
  by (simp add: applyEvent_def carry_and_clamp_def in_range_def)


section \<open>Pipeline coordinator: draining and order\<close>

lemma applyAll_append:
  "applyAll s (xs @ ys) =
     (case applyAll s xs of Inl err \<Rightarrow> Inl err | Inr s' \<Rightarrow> applyAll s' ys)"
  by (induction xs arbitrary: s) (simp_all split: sum.split)

lemma pushAll_append: "pushAll rb (xs @ ys) = pushAll (pushAll rb xs) ys"
  by (simp add: pushAll_def)

lemma applyAll_concat: "applyAll s (concat bs) = applyBatches s bs"
  by (induction bs arbitrary: s) (simp_all add: applyAll_append split: sum.split)

lemma pushAll_concat: "pushAll rb (concat bs) = foldl pushAll rb bs"
  by (induction bs arbitrary: rb) (simp_all add: pushAll_append, simp add: pushAll_def)

lemma splice_zero: "splice a 0 = (a, [])"
  by (simp add: splice_def)

lemma drain_tick_empty: "queueRef c = [] \<Longrightarrow> drain_tick c = Inr c"
  by (simp add: drain_tick_def splice_zero)

lemma drain_tick_Inr:
  assumes "drain_tick c = Inr c'"
  shows "queueRef c' = []" and "buffer c' = pushAll (buffer c) (queueRef c)"
    and "applyAll (summaryState c) (queueRef c) = Inr (summaryState c')"
  using assms
  by (auto simp: drain_tick_def splice_zero Let_def pushAll_def split: sum.splits if_splits)

lemma drain_tick_Inl:
  assumes "drain_tick c = Inl err"
  shows "applyAll (summaryState c) (queueRef c) = Inl err"
  using assms
  by (auto simp: drain_tick_def splice_zero Let_def split: sum.splits if_splits)

lemma run_order:
  "case run c ts of
     Inr c' \<Rightarrow>
       applyAll (summaryState c') (queueRef c')
         = applyAll (summaryState c) (queueRef c @ enqueued ts)
       \<and> pushAll (buffer c') (queueRef c') = pushAll (buffer c) (queueRef c @ enqueued ts)
   | Inl err \<Rightarrow> applyAll (summaryState c) (queueRef c @ enqueued ts) = Inl err"
proof (induction c ts rule: run.induct)
  case (1 c)
  then show ?case by simp
next
  case (2 c evt ts)
  then show ?case by (simp add: producer_tick_def split: sum.splits)
next
  case (3 c ts)
  show ?case
  proof (cases "drain_tick c")
    case (Inl err)
    then show ?thesis by (simp add: applyAll_append drain_tick_Inl)
  next
    case (Inr c1)
    note d = drain_tick_Inr[OF Inr]
    from 3[OF Inr] d Inr show ?thesis
      by (simp add: applyAll_append pushAll_append split: sum.splits)
  qed
qed

text \<open>
  C7. For every state of the coordinator, \<open>queueRef.current.splice(0)\<close> returns all the
  queued events in arrival order and leaves the queue empty; a drain tick that returns has
  emptied the queue and applied exactly those events, in that order, to the ring buffer
  and to the summary (and one that throws does so because folding them throws); and a
  drain tick on an empty queue returns the state it was given: the feed, the summary, the
  buffer and the numbers of \<open>setFeed\<close> and \<open>setSummary\<close> calls are unchanged.
\<close>

theorem drain_tick_takes_all:
  "splice (queueRef c) 0 = (queueRef c, [])
   \<and> (case drain_tick c of
        Inr c' \<Rightarrow>
          queueRef c' = [] \<and> buffer c' = pushAll (buffer c) (queueRef c)
          \<and> applyAll (summaryState c) (queueRef c) = Inr (summaryState c')
      | Inl err \<Rightarrow> applyAll (summaryState c) (queueRef c) = Inl err)
   \<and> (queueRef c = [] \<longrightarrow> drain_tick c = Inr c)"
  by (simp add: splice_zero drain_tick_empty drain_tick_Inr drain_tick_Inl split: sum.split)

theorem drain_tick_takes_all_witness:
  "queueRef \<lparr>queueRef = [], buffer = RingBuffer_new 100,
      summaryState = \<lparr>runs = Num 0, wickets = 0, overs = 0, balls = 0\<rparr>,
      feedState = [], setSummary_calls = 0, setFeed_calls = 0\<rparr> = []
   \<and> drain_tick \<lparr>queueRef = [], buffer = RingBuffer_new 100,
      summaryState = \<lparr>runs = Num 0, wickets = 0, overs = 0, balls = 0\<rparr>,
      feedState = [], setSummary_calls = 0, setFeed_calls = 0\<rparr>
     = Inr \<lparr>queueRef = [], buffer = RingBuffer_new 100,
      summaryState = \<lparr>runs = Num 0, wickets = 0, overs = 0, balls = 0\<rparr>,
      feedState = [], setSummary_calls = 0, setFeed_calls = 0\<rparr>"
  using drain_tick_takes_all[of "\<lparr>queueRef = [], buffer = RingBuffer_new 100,
      summaryState = \<lparr>runs = Num 0, wickets = 0, overs = 0, balls = 0\<rparr>,
      feedState = [], setSummary_calls = 0, setFeed_calls = 0\<rparr>"]
  by simp

text \<open>
  C8. For every summary and every list of batches, folding the concatenation of the
  batches one event at a time equals folding batch after batch, and likewise for pushing
  into the ring buffer. For every run of producer and drain ticks from any state: if the
  run returns, then applying the events still queued to its summary and ring buffer gives
  what applying, in enqueue order, the events queued at the start followed by all events
  enqueued during the run gives from the initial summary and ring buffer; if the run
  throws, folding those events in that order throws as well.
\<close>

theorem fold_in_batches:
  "applyAll s (concat bs) = applyBatches s bs
   \<and> pushAll rb (concat bs) = foldl pushAll rb bs
   \<and> (case run c ts of
        Inr c' \<Rightarrow>
          applyAll (summaryState c') (queueRef c')
            = applyAll (summaryState c) (queueRef c @ enqueued ts)
          \<and> pushAll (buffer c') (queueRef c') = pushAll (buffer c) (queueRef c @ enqueued ts)
      | Inl err \<Rightarrow> applyAll (summaryState c) (queueRef c @ enqueued ts) = Inl err)"
  using run_order[of c ts] by (simp add: applyAll_concat pushAll_concat)


theorem fold_in_batches_witness:
  "applyAll \<lparr>runs = Num 0, wickets = 0, overs = 0, balls = 0\<rparr>
     (concat
       [[\<lparr>evt_id = ''1'', timestamp = ''10:00:00'', evt_type = ''WICKET'', payload = None\<rparr>,
         \<lparr>evt_id = ''2'', timestamp = ''10:00:03'', evt_type = ''BALL'',
          payload = Some \<lparr>p_runs = Number (Num 1), p_status = Prim Undefined\<rparr>\<rparr>],
        [\<lparr>evt_id = ''3'', timestamp = ''10:00:06'', evt_type = ''BOUNDARY'',
          payload = Some \<lparr>p_runs = Number (Num 4), p_status = Prim Undefined\<rparr>\<rparr>]])
   = applyBatches \<lparr>runs = Num 0, wickets = 0, overs = 0, balls = 0\<rparr>
       [[\<lparr>evt_id = ''1'', timestamp = ''10:00:00'', evt_type = ''WICKET'', payload = None\<rparr>,
         \<lparr>evt_id = ''2'', timestamp = ''10:00:03'', evt_type = ''BALL'',
          payload = Some \<lparr>p_runs = Number (Num 1), p_status = Prim Undefined\<rparr>\<rparr>],
        [\<lparr>evt_id = ''3'', timestamp = ''10:00:06'', evt_type = ''BOUNDARY'',
          payload = Some \<lparr>p_runs = Number (Num 4), p_status = Prim Undefined\<rparr>\<rparr>]]
   \<and> applyBatches \<lparr>runs = Num 0, wickets = 0, overs = 0, balls = 0\<rparr>
       [[\<lparr>evt_id = ''1'', timestamp = ''10:00:00'', evt_type = ''WICKET'', payload = None\<rparr>,
         \<lparr>evt_id = ''2'', timestamp = ''10:00:03'', evt_type = ''BALL'',
          payload = Some \<lparr>p_runs = Number (Num 1), p_status = Prim Undefined\<rparr>\<rparr>],
        [\<lparr>evt_id = ''3'', timestamp = ''10:00:06'', evt_type = ''BOUNDARY'',
          payload = Some \<lparr>p_runs = Number (Num 4), p_status = Prim Undefined\<rparr>\<rparr>]]
     = Inr \<lparr>runs = Num 5, wickets = 1, overs = 0, balls = 3\<rparr>
   \<and> (case run \<lparr>queueRef = [], buffer = RingBuffer_new 3, summaryState = \<lparr>runs = Num 0, wickets = 0, overs = 0, balls = 0\<rparr>,
        feedState = [], setSummary_calls = 0, setFeed_calls = 0\<rparr>
       [Producer \<lparr>evt_id = ''1'', timestamp = ''10:00:00'', evt_type = ''WICKET'', payload = None\<rparr>,
        Producer \<lparr>evt_id = ''2'', timestamp = ''10:00:03'', evt_type = ''BALL'',
          payload = Some \<lparr>p_runs = Number (Num 1), p_status = Prim Undefined\<rparr>\<rparr>,
        Drain,
        Producer \<lparr>evt_id = ''3'', timestamp = ''10:00:06'', evt_type = ''BOUNDARY'',
          payload = Some \<lparr>p_runs = Number (Num 4), p_status = Prim Undefined\<rparr>\<rparr>,
        Drain] of
        Inr c' \<Rightarrow>
          queueRef c' = [] \<and> summaryState c' = \<lparr>runs = Num 5, wickets = 1, overs = 0, balls = 3\<rparr>
          \<and> feedState c' =
            [Item \<lparr>evt_id = ''3'', timestamp = ''10:00:06'', evt_type = ''BOUNDARY'',
          payload = Some \<lparr>p_runs = Number (Num 4), p_status = Prim Undefined\<rparr>\<rparr>,
             Item \<lparr>evt_id = ''2'', timestamp = ''10:00:03'', evt_type = ''BALL'',
          payload = Some \<lparr>p_runs = Number (Num 1), p_status = Prim Undefined\<rparr>\<rparr>,
             Item \<lparr>evt_id = ''1'', timestamp = ''10:00:00'', evt_type = ''WICKET'', payload = None\<rparr>]
      | Inl err \<Rightarrow> False)"
proof -
  let ?z = "\<lparr>runs = Num 0, wickets = 0, overs = 0, balls = 0\<rparr>"
  let ?bs = "[[\<lparr>evt_id = ''1'', timestamp = ''10:00:00'', evt_type = ''WICKET'', payload = None\<rparr>,
         \<lparr>evt_id = ''2'', timestamp = ''10:00:03'', evt_type = ''BALL'',
          payload = Some \<lparr>p_runs = Number (Num 1), p_status = Prim Undefined\<rparr>\<rparr>],
        [\<lparr>evt_id = ''3'', timestamp = ''10:00:06'', evt_type = ''BOUNDARY'',
          payload = Some \<lparr>p_runs = Number (Num 4), p_status = Prim Undefined\<rparr>\<rparr>]]"
  have e: "applyBatches ?z ?bs = Inr \<lparr>runs = Num 5, wickets = 1, overs = 0, balls = 3\<rparr>"
    by (simp add: applyEvent_def carry_and_clamp_def)
  have r: "case run \<lparr>queueRef = [], buffer = RingBuffer_new 3, summaryState = \<lparr>runs = Num 0, wickets = 0, overs = 0, balls = 0\<rparr>,
        feedState = [], setSummary_calls = 0, setFeed_calls = 0\<rparr>
       [Producer \<lparr>evt_id = ''1'', timestamp = ''10:00:00'', evt_type = ''WICKET'', payload = None\<rparr>,
        Producer \<lparr>evt_id = ''2'', timestamp = ''10:00:03'', evt_type = ''BALL'',
          payload = Some \<lparr>p_runs = Number (Num 1), p_status = Prim Undefined\<rparr>\<rparr>,
        Drain,
        Producer \<lparr>evt_id = ''3'', timestamp = ''10:00:06'', evt_type = ''BOUNDARY'',
          payload = Some \<lparr>p_runs = Number (Num 4), p_status = Prim Undefined\<rparr>\<rparr>,
        Drain] of
        Inr c' \<Rightarrow>
          queueRef c' = [] \<and> summaryState c' = \<lparr>runs = Num 5, wickets = 1, overs = 0, balls = 3\<rparr>
          \<and> feedState c' =
            [Item \<lparr>evt_id = ''3'', timestamp = ''10:00:06'', evt_type = ''BOUNDARY'',
          payload = Some \<lparr>p_runs = Number (Num 4), p_status = Prim Undefined\<rparr>\<rparr>,
             Item \<lparr>evt_id = ''2'', timestamp = ''10:00:03'', evt_type = ''BALL'',
          payload = Some \<lparr>p_runs = Number (Num 1), p_status = Prim Undefined\<rparr>\<rparr>,
             Item \<lparr>evt_id = ''1'', timestamp = ''10:00:00'', evt_type = ''WICKET'', payload = None\<rparr>]
      | Inl err \<Rightarrow> False"
    by (simp add: producer_tick_def drain_tick_def splice_def applyEvent_def
        carry_and_clamp_def pushAll_def push_def RingBuffer_new_def store_def Let_def
        toArrayDesc_def fetch_def)
  from fold_in_batches[of ?z ?bs]
  have "applyAll ?z (concat ?bs) = applyBatches ?z ?bs" by blast
  with e r show ?thesis by simp
qed


section \<open>The two accumulators on single events\<close>

lemma str_includes_iff: "str_includes s p \<longleftrightarrow> (\<exists>ps ss. s = ps @ p @ ss)"
proof (induction s)
  case Nil
  then show ?case by auto
next
  case (Cons c cs)
  have "take (length p) (c # cs) = p \<longleftrightarrow> (\<exists>ss. c # cs = p @ ss)"
    by (metis append_eq_conv_conj append_take_drop_id)
  moreover have "(\<exists>ps ss. c # cs = ps @ p @ ss)
      \<longleftrightarrow> (\<exists>ss. c # cs = p @ ss) \<or> (\<exists>ps ss. cs = ps @ p @ ss)"
  proof
    assume "\<exists>ps ss. c # cs = ps @ p @ ss"
    then obtain ps ss where e: "c # cs = ps @ p @ ss" by blast
    show "(\<exists>ss. c # cs = p @ ss) \<or> (\<exists>ps ss. cs = ps @ p @ ss)"
    proof (cases ps)
      case Nil
      with e show ?thesis by auto
    next
      case (Cons a as)
      with e have "cs = as @ p @ ss" by simp
      then show ?thesis by blast
    qed
  next
    assume "(\<exists>ss. c # cs = p @ ss) \<or> (\<exists>ps ss. cs = ps @ p @ ss)"
    then show "\<exists>ps ss. c # cs = ps @ p @ ss"
    proof
      assume "\<exists>ss. c # cs = p @ ss"
      then obtain ss where "c # cs = [] @ p @ ss" by auto
      then show ?thesis by blast
    next
      assume "\<exists>ps ss. cs = ps @ p @ ss"
      then obtain ps ss where "c # cs = (c # ps) @ p @ ss" by auto
      then show ?thesis by blast
    qed
  qed
  ultimately show ?case using Cons.IH by simp
qed

lemma includes_lower_iff:
  "str_includes (toLowerCase s) m \<longleftrightarrow> (\<exists>ps t ss. s = ps @ t @ ss \<and> toLowerCase t = m)"
proof -
  have "(\<exists>a b. map toLowerCase_char s = a @ m @ b)
      \<longleftrightarrow> (\<exists>ps t ss. s = ps @ t @ ss \<and> map toLowerCase_char t = m)"
  proof
    assume "\<exists>a b. map toLowerCase_char s = a @ m @ b"
    then obtain a b where "map toLowerCase_char s = a @ m @ b" by blast
    then obtain ps r where 1: "s = ps @ r" "map toLowerCase_char r = m @ b"
      by (metis map_eq_append_conv)
    then obtain t ss where "r = t @ ss" "map toLowerCase_char t = m"
      by (metis map_eq_append_conv)
    with 1 show "\<exists>ps t ss. s = ps @ t @ ss \<and> map toLowerCase_char t = m" by blast
  next
    assume "\<exists>ps t ss. s = ps @ t @ ss \<and> map toLowerCase_char t = m"
    then obtain ps t ss where "s = ps @ t @ ss" "map toLowerCase_char t = m" by blast
    then have "map toLowerCase_char s = map toLowerCase_char ps @ m @ map toLowerCase_char ss"
      by simp
    then show "\<exists>a b. map toLowerCase_char s = a @ m @ b" by blast
  qed
  then show ?thesis by (simp add: str_includes_iff toLowerCase_def)
qed


lemma reducer_match_status:
  assumes "evt_type e = ''MATCH_STATUS''"
  shows "applyEvent_reducer now rnd st e =
     (case status_or_default (payload_or_empty e) of
        Prim v \<Rightarrow> Inl TypeError
      | Str status \<Rightarrow>
          Inr (if str_includes (toLowerCase status) ''new innings''
               then st\<lparr>matchStatus := status,
                       commentary := \<lparr>entry_event = e, entry_id = (now, rnd), receivedAt = now,
                          displayRuns = None, unknown = False\<rparr> # commentary st,
                       totalRuns := 0, state_wickets := 0, state_balls := 0\<rparr>
               else st\<lparr>matchStatus := status,
                       commentary := \<lparr>entry_event = e, entry_id = (now, rnd), receivedAt = now,
                          displayRuns = None, unknown = False\<rparr> # commentary st\<rparr>, []))"
  using assms by (simp add: applyEvent_reducer_def Let_def split: jsval.split)

text \<open>
  C4, as amended. For every \<open>MATCH_STATUS\<close> event: \<open>applyEvent\<close> of App.js returns the
  summary it was given, whatever the status says. The reducer's \<open>applyEvent\<close> throws a
  \<open>TypeError\<close> when the status is truthy and not a string; otherwise, with \<open>status\<close> the
  string \<open>payload.status || 'Status Update'\<close>, it returns, without a console warning, the
  state it was given with \<open>matchStatus\<close> set to \<open>status\<close>, the entry of the event (stamped
  with the clock reading and the random draw) put in front of \<open>commentary\<close>, and, only when
  the lower-cased status includes \<open>new innings\<close>, \<open>totalRuns\<close>, \<open>wickets\<close> and \<open>balls\<close>
  set to 0; nothing else of the state changes (it has no \<open>overs\<close> field). The test on the
  lower-cased status holds exactly when some substring of the status lower-cases to
  \<open>new innings\<close>.
\<close>

theorem match_status_event:
  assumes "evt_type e = ''MATCH_STATUS''"
  shows "applyEvent s e = Inr s
    \<and> (case status_or_default (payload_or_empty e) of
         Prim v \<Rightarrow> applyEvent_reducer now rnd st e = Inl TypeError
       | Str status \<Rightarrow>
           applyEvent_reducer now rnd st e =
             Inr (if str_includes (toLowerCase status) ''new innings''
                  then st\<lparr>matchStatus := status,
                          commentary := \<lparr>entry_event = e, entry_id = (now, rnd), receivedAt = now,
                          displayRuns = None, unknown = False\<rparr> # commentary st,
                          totalRuns := 0, state_wickets := 0, state_balls := 0\<rparr>
                  else st\<lparr>matchStatus := status,
                          commentary := \<lparr>entry_event = e, entry_id = (now, rnd), receivedAt = now,
                          displayRuns = None, unknown = False\<rparr> # commentary st\<rparr>, []))
    \<and> (str_includes (toLowerCase text) ''new innings''
          \<longleftrightarrow> (\<exists>ps t ss. text = ps @ t @ ss \<and> toLowerCase t = ''new innings''))"
proof (intro conjI)
  show "applyEvent s e = Inr s" using assms by (simp add: applyEvent_def)
  show "case status_or_default (payload_or_empty e) of
         Prim v \<Rightarrow> applyEvent_reducer now rnd st e = Inl TypeError
       | Str status \<Rightarrow>
           applyEvent_reducer now rnd st e =
             Inr (if str_includes (toLowerCase status) ''new innings''
                  then st\<lparr>matchStatus := status,
                          commentary := \<lparr>entry_event = e, entry_id = (now, rnd), receivedAt = now,
                          displayRuns = None, unknown = False\<rparr> # commentary st,
                          totalRuns := 0, state_wickets := 0, state_balls := 0\<rparr>
                  else st\<lparr>matchStatus := status,
                          commentary := \<lparr>entry_event = e, entry_id = (now, rnd), receivedAt = now,
                          displayRuns = None, unknown = False\<rparr> # commentary st\<rparr>, [])"
    by (simp add: reducer_match_status[OF assms] split: jsval.split)
  show "str_includes (toLowerCase text) ''new innings''
          \<longleftrightarrow> (\<exists>ps t ss. text = ps @ t @ ss \<and> toLowerCase t = ''new innings'')"
    by (rule includes_lower_iff)
qed

theorem match_status_event_witness:
  "evt_type \<lparr>evt_id = ''9'', timestamp = ''10:30:00'', evt_type = ''MATCH_STATUS'',
        payload = Some \<lparr>p_runs = Undefined, p_status = Str ''New Innings''\<rparr>\<rparr> = ''MATCH_STATUS''
   \<and> applyEvent \<lparr>runs = Num 120, wickets = 3, overs = 15, balls = 2\<rparr>
       \<lparr>evt_id = ''9'', timestamp = ''10:30:00'', evt_type = ''MATCH_STATUS'',
        payload = Some \<lparr>p_runs = Undefined, p_status = Str ''New Innings''\<rparr>\<rparr>
     = Inr \<lparr>runs = Num 120, wickets = 3, overs = 15, balls = 2\<rparr>
   \<and> applyEvent_reducer 1000 7
         \<lparr>totalRuns = 120, state_wickets = 3, state_balls = 92, commentary = [], matchStatus = ''Live''\<rparr>
         \<lparr>evt_id = ''9'', timestamp = ''10:30:00'', evt_type = ''MATCH_STATUS'',
        payload = Some \<lparr>p_runs = Undefined, p_status = Str ''New Innings''\<rparr>\<rparr>
     = Inr (\<lparr>totalRuns = 0, state_wickets = 0, state_balls = 0,
          commentary = [\<lparr>entry_event = \<lparr>evt_id = ''9'', timestamp = ''10:30:00'', evt_type = ''MATCH_STATUS'',
        payload = Some \<lparr>p_runs = Undefined, p_status = Str ''New Innings''\<rparr>\<rparr>,
            entry_id = (1000, 7), receivedAt = 1000, displayRuns = None, unknown = False\<rparr>],
          matchStatus = ''New Innings''\<rparr>, [])
   \<and> applyEvent_reducer 1000 7
         \<lparr>totalRuns = 120, state_wickets = 3, state_balls = 92, commentary = [], matchStatus = ''Live''\<rparr>
         \<lparr>evt_id = ''3'', timestamp = ''10:15:00'', evt_type = ''MATCH_STATUS'',
        payload = Some \<lparr>p_runs = Undefined, p_status = Str ''Innings Break''\<rparr>\<rparr>
     = Inr (\<lparr>totalRuns = 120, state_wickets = 3, state_balls = 92,
          commentary = [\<lparr>entry_event = \<lparr>evt_id = ''3'', timestamp = ''10:15:00'', evt_type = ''MATCH_STATUS'',
        payload = Some \<lparr>p_runs = Undefined, p_status = Str ''Innings Break''\<rparr>\<rparr>,
            entry_id = (1000, 7), receivedAt = 1000, displayRuns = None, unknown = False\<rparr>],
          matchStatus = ''Innings Break''\<rparr>, [])"
proof -
  let ?e = "\<lparr>evt_id = ''9'', timestamp = ''10:30:00'', evt_type = ''MATCH_STATUS'',
        payload = Some \<lparr>p_runs = Undefined, p_status = Str ''New Innings''\<rparr>\<rparr>"
  let ?f = "\<lparr>evt_id = ''3'', timestamp = ''10:15:00'', evt_type = ''MATCH_STATUS'',
        payload = Some \<lparr>p_runs = Undefined, p_status = Str ''Innings Break''\<rparr>\<rparr>"
  have t: "evt_type ?e = ''MATCH_STATUS''" "evt_type ?f = ''MATCH_STATUS''" by simp_all
  have d: "status_or_default (payload_or_empty ?e) = Str ''New Innings''"
    "status_or_default (payload_or_empty ?f) = Str ''Innings Break''"
    by (simp_all add: status_or_default_def payload_or_empty_def)
  have i: "str_includes (toLowerCase ''New Innings'') ''new innings''"
    "\<not> str_includes (toLowerCase ''Innings Break'') ''new innings''"
    by (simp_all add: toLowerCase_def)
  from match_status_event[OF t(1), of "\<lparr>runs = Num 120, wickets = 3, overs = 15, balls = 2\<rparr>" 1000 7
      "\<lparr>totalRuns = 120, state_wickets = 3, state_balls = 92, commentary = [], matchStatus = ''Live''\<rparr>"]
    match_status_event[OF t(2), of "\<lparr>runs = Num 120, wickets = 3, overs = 15, balls = 2\<rparr>" 1000 7
      "\<lparr>totalRuns = 120, state_wickets = 3, state_balls = 92, commentary = [], matchStatus = ''Live''\<rparr>"]
  show ?thesis using d i by simp
qed

text \<open>
  C4 as stated fails on App.js: the status \<open>New Innings\<close> includes the marker, and
  \<open>applyEvent\<close> returns the summary 120/3 after 15.2 overs as it is.
\<close>

theorem match_status_event_counterexample:
  "applyEvent \<lparr>runs = Num 120, wickets = 3, overs = 15, balls = 2\<rparr>
       \<lparr>evt_id = ''9'', timestamp = ''10:30:00'', evt_type = ''MATCH_STATUS'',
        payload = Some \<lparr>p_runs = Undefined, p_status = Str ''New Innings''\<rparr>\<rparr>
     = Inr \<lparr>runs = Num 120, wickets = 3, overs = 15, balls = 2\<rparr>
   \<and> str_includes (toLowerCase ''New Innings'') ''new innings''"
  by (simp add: applyEvent_def toLowerCase_def)

lemma reducer_ball:
  assumes "evt_type e = ''BALL''"
  shows "applyEvent_reducer now rnd st e =
     Inr (st\<lparr>totalRuns := totalRuns st + or_num (ToNumber (p_runs (payload_or_empty e))) 0,
              commentary := \<lparr>entry_event = e, entry_id = (now, rnd), receivedAt = now,
                 displayRuns = Some (or_num (ToNumber (p_runs (payload_or_empty e))) 0),
                 unknown = False\<rparr> # commentary st,
              state_balls := state_balls st + 1\<rparr>, [])"
  using assms by (simp add: applyEvent_reducer_def Let_def addBall_def)

lemma reducer_boundary:
  assumes "evt_type e = ''BOUNDARY''"
  shows "applyEvent_reducer now rnd st e =
     Inr (st\<lparr>totalRuns := totalRuns st + or_num (ToNumber (p_runs (payload_or_empty e))) 4,
              commentary := \<lparr>entry_event = e, entry_id = (now, rnd), receivedAt = now,
                 displayRuns = Some (or_num (ToNumber (p_runs (payload_or_empty e))) 4),
                 unknown = False\<rparr> # commentary st,
              state_balls := state_balls st + 1\<rparr>, [])"
  using assms by (simp add: applyEvent_reducer_def Let_def addBall_def)

lemma reducer_wicket:
  assumes "evt_type e = ''WICKET''"
  shows "applyEvent_reducer now rnd st e =
     Inr (st\<lparr>state_wickets := state_wickets st + 1,
              commentary := \<lparr>entry_event = e, entry_id = (now, rnd), receivedAt = now,
                 displayRuns = None, unknown = False\<rparr> # commentary st,
              state_balls := state_balls st + 1\<rparr>, [])"
  using assms by (simp add: applyEvent_reducer_def Let_def addBall_def)

lemma reducer_unknown:
  assumes "evt_type e \<noteq> ''BALL''" "evt_type e \<noteq> ''BOUNDARY''" "evt_type e \<noteq> ''WICKET''"
    "evt_type e \<noteq> ''MATCH_STATUS''"
  shows "applyEvent_reducer now rnd st e =
     Inr (st\<lparr>commentary := \<lparr>entry_event = e, entry_id = (now, rnd), receivedAt = now,
                 displayRuns = None, unknown = True\<rparr> # commentary st\<rparr>,
          [[''Unknown event type received:'', evt_type e]])"
  using assms by (simp add: applyEvent_reducer_def Let_def)

text \<open>
  C5, as amended. In the reducer, a \<open>BALL\<close> event adds \<open>Number(payload.runs)\<close> to
  \<open>totalRuns\<close>, or 0 when that is \<open>NaN\<close>; a \<open>BOUNDARY\<close> event adds
  \<open>Number(payload.runs)\<close>, or 4 when that is \<open>NaN\<close> or 0; both add 1 to \<open>balls\<close>, put the
  entry of the event, with the runs added as \<open>displayRuns\<close>, in front of \<open>commentary\<close>,
  change nothing else of the state and write no console warning; an absent payload, or a
  payload without \<open>runs\<close>, gives \<open>NaN\<close>. In App.js, a \<open>BALL\<close> or \<open>BOUNDARY\<close> event without
  a payload throws a \<open>TypeError\<close>; with a payload, \<open>applyEvent\<close> returns the summary whose
  runs are the sum of \<open>runs\<close> and \<open>payload.runs\<close> as it is, capped at 300, whose balls are
  \<open>balls + 1\<close>, or its remainder by 6 when \<open>balls + 1 \<ge> 6\<close>, whose overs are \<open>overs\<close>,
  increased by the floor of \<open>(balls + 1) / 6\<close> when \<open>balls + 1 \<ge> 6\<close>, capped at 50, and
  whose wickets are \<open>wickets\<close> capped at 10. No default is applied there: with
  \<open>payload.runs\<close> absent, \<open>runs\<close> becomes \<open>NaN\<close>.
\<close>

theorem ball_boundary_event:
  "(evt_type e = ''BALL'' \<longrightarrow>
      applyEvent_reducer now rnd st e =
        (let r = (case ToNumber (p_runs (payload_or_empty e)) of
                    NaN \<Rightarrow> 0 | Num k \<Rightarrow> k)
         in Inr (st\<lparr>totalRuns := totalRuns st + r,
                     commentary := \<lparr>entry_event = e, entry_id = (now, rnd), receivedAt = now,
                        displayRuns = Some r, unknown = False\<rparr> # commentary st,
                     state_balls := state_balls st + 1\<rparr>, [])))
   \<and> (evt_type e = ''BOUNDARY'' \<longrightarrow>
      applyEvent_reducer now rnd st e =
        (let r = (case ToNumber (p_runs (payload_or_empty e)) of
                    NaN \<Rightarrow> 4 | Num k \<Rightarrow> if k = 0 then 4 else k)
         in Inr (st\<lparr>totalRuns := totalRuns st + r,
                     commentary := \<lparr>entry_event = e, entry_id = (now, rnd), receivedAt = now,
                        displayRuns = Some r, unknown = False\<rparr> # commentary st,
                     state_balls := state_balls st + 1\<rparr>, [])))
   \<and> (payload e = None \<or> (\<exists>p. payload e = Some p \<and> p_runs p = Undefined)
        \<longrightarrow> ToNumber (p_runs (payload_or_empty e)) = NaN)
   \<and> (evt_type e = ''BALL'' \<or> evt_type e = ''BOUNDARY'' \<longrightarrow>
      applyEvent s e =
        (case payload e of
           None \<Rightarrow> Inl TypeError
         | Some p \<Rightarrow>
             Inr \<lparr>runs = min_num (js_add (runs s) (ToNumber (p_runs p))) 300,
                  wickets = min (wickets s) 10,
                  overs = min (if 6 \<le> balls s + 1 then overs s + (balls s + 1) div 6
                               else overs s) 50,
                  balls = (if 6 \<le> balls s + 1 then (balls s + 1) mod 6 else balls s + 1)\<rparr>))
   \<and> min_num (js_add (runs s) (ToNumber Undefined)) 300 = NaN"
proof (intro conjI impI)
  assume "evt_type e = ''BALL''"
  then show "applyEvent_reducer now rnd st e =
        (let r = (case ToNumber (p_runs (payload_or_empty e)) of
                    NaN \<Rightarrow> 0 | Num k \<Rightarrow> k)
         in Inr (st\<lparr>totalRuns := totalRuns st + r,
                     commentary := \<lparr>entry_event = e, entry_id = (now, rnd), receivedAt = now,
                        displayRuns = Some r, unknown = False\<rparr> # commentary st,
                     state_balls := state_balls st + 1\<rparr>, []))"
    by (simp add: reducer_ball Let_def split: jsnum.split)
next
  assume "evt_type e = ''BOUNDARY''"
  then show "applyEvent_reducer now rnd st e =
        (let r = (case ToNumber (p_runs (payload_or_empty e)) of
                    NaN \<Rightarrow> 4 | Num k \<Rightarrow> if k = 0 then 4 else k)
         in Inr (st\<lparr>totalRuns := totalRuns st + r,
                     commentary := \<lparr>entry_event = e, entry_id = (now, rnd), receivedAt = now,
                        displayRuns = Some r, unknown = False\<rparr> # commentary st,
                     state_balls := state_balls st + 1\<rparr>, []))"
    by (simp add: reducer_boundary Let_def split: jsnum.split)
next
  assume "payload e = None \<or> (\<exists>p. payload e = Some p \<and> p_runs p = Undefined)"
  then show "ToNumber (p_runs (payload_or_empty e)) = NaN"
    by (auto simp: payload_or_empty_def)
next
  assume a: "evt_type e = ''BALL'' \<or> evt_type e = ''BOUNDARY''"
  show "applyEvent s e =
        (case payload e of
           None \<Rightarrow> Inl TypeError
         | Some p \<Rightarrow>
             Inr \<lparr>runs = min_num (js_add (runs s) (ToNumber (p_runs p))) 300,
                  wickets = min (wickets s) 10,
                  overs = min (if 6 \<le> balls s + 1 then overs s + (balls s + 1) div 6
                               else overs s) 50,
                  balls = (if 6 \<le> balls s + 1 then (balls s + 1) mod 6 else balls s + 1)\<rparr>)"
  proof (cases "payload e")
    case None
    with a show ?thesis by (auto simp: applyEvent_def)
  next
    case (Some p)
    have "carry_and_clamp (s\<lparr>runs := js_add (runs s) (ToNumber (p_runs p)), balls := balls s + 1\<rparr>)
        = \<lparr>runs = min_num (js_add (runs s) (ToNumber (p_runs p))) 300,
           wickets = min (wickets s) 10,
           overs = min (if 6 \<le> balls s + 1 then overs s + (balls s + 1) div 6
                        else overs s) 50,
           balls = (if 6 \<le> balls s + 1 then (balls s + 1) mod 6 else balls s + 1)\<rparr>"
      by (cases "js_add (runs s) (ToNumber (p_runs p))")
        (simp_all add: carry_and_clamp_def Let_def js_rem_nonneg min_def)
    with a Some show ?thesis by (auto simp: applyEvent_def)
  qed
next
  show "min_num (js_add (runs s) (ToNumber Undefined)) 300 = NaN" by (cases "runs s") simp_all
qed

theorem ball_boundary_event_witness:
  "applyEvent_reducer 1000 7 initialState
       \<lparr>evt_id = ''5'', timestamp = ''10:20:00'', evt_type = ''BALL'',
        payload = Some \<lparr>p_runs = Undefined, p_status = Prim Undefined\<rparr>\<rparr>
     = Inr (\<lparr>totalRuns = 0, state_wickets = 0, state_balls = 1,
          commentary = [\<lparr>entry_event = \<lparr>evt_id = ''5'', timestamp = ''10:20:00'', evt_type = ''BALL'',
        payload = Some \<lparr>p_runs = Undefined, p_status = Prim Undefined\<rparr>\<rparr>,
            entry_id = (1000, 7), receivedAt = 1000, displayRuns = Some 0, unknown = False\<rparr>],
          matchStatus = ''Live''\<rparr>, [])
   \<and> applyEvent_reducer 1000 7 initialState
       \<lparr>evt_id = ''7'', timestamp = ''10:20:06'', evt_type = ''BOUNDARY'',
        payload = Some \<lparr>p_runs = Number (Num 6), p_status = Prim Undefined\<rparr>\<rparr>
     = Inr (\<lparr>totalRuns = 6, state_wickets = 0, state_balls = 1,
          commentary = [\<lparr>entry_event = \<lparr>evt_id = ''7'', timestamp = ''10:20:06'', evt_type = ''BOUNDARY'',
        payload = Some \<lparr>p_runs = Number (Num 6), p_status = Prim Undefined\<rparr>\<rparr>,
            entry_id = (1000, 7), receivedAt = 1000, displayRuns = Some 6, unknown = False\<rparr>],
          matchStatus = ''Live''\<rparr>, [])
   \<and> applyEvent \<lparr>runs = Num 298, wickets = 0, overs = 0, balls = 5\<rparr>
       \<lparr>evt_id = ''7'', timestamp = ''10:20:06'', evt_type = ''BOUNDARY'',
        payload = Some \<lparr>p_runs = Number (Num 6), p_status = Prim Undefined\<rparr>\<rparr>
     = Inr \<lparr>runs = Num 300, wickets = 0, overs = 1, balls = 0\<rparr>
   \<and> applyEvent \<lparr>runs = Num 0, wickets = 0, overs = 0, balls = 0\<rparr>
       \<lparr>evt_id = ''5'', timestamp = ''10:20:00'', evt_type = ''BALL'',
        payload = Some \<lparr>p_runs = Undefined, p_status = Prim Undefined\<rparr>\<rparr>
     = Inr \<lparr>runs = NaN, wickets = 0, overs = 0, balls = 1\<rparr>"
proof -
  let ?b = "\<lparr>evt_id = ''5'', timestamp = ''10:20:00'', evt_type = ''BALL'',
        payload = Some \<lparr>p_runs = Undefined, p_status = Prim Undefined\<rparr>\<rparr>"
  let ?c = "\<lparr>evt_id = ''7'', timestamp = ''10:20:06'', evt_type = ''BOUNDARY'',
        payload = Some \<lparr>p_runs = Number (Num 6), p_status = Prim Undefined\<rparr>\<rparr>"
  have t: "evt_type ?b = ''BALL''" "evt_type ?c = ''BOUNDARY''" by simp_all
  have p: "payload ?b = Some \<lparr>p_runs = Undefined, p_status = Prim Undefined\<rparr>"
    "payload ?c = Some \<lparr>p_runs = Number (Num 6), p_status = Prim Undefined\<rparr>" by simp_all
  have u: "payload ?b = None
      \<or> (\<exists>q. payload ?b = Some q \<and> p_runs q = Undefined)" by simp
  have n: "ToNumber (p_runs (payload_or_empty ?c)) = Num 6" by (simp add: payload_or_empty_def)
  from ball_boundary_event[of ?b 1000 7 initialState "\<lparr>runs = Num 0, wickets = 0, overs = 0, balls = 0\<rparr>"]
    ball_boundary_event[of ?c 1000 7 initialState
      "\<lparr>runs = Num 298, wickets = 0, overs = 0, balls = 5\<rparr>"] t p u n
  show ?thesis by (simp add: initialState_def)
qed

text \<open>
  C5 as stated fails. In App.js a \<open>BALL\<close> whose payload has no \<open>runs\<close> takes the zero
  summary to \<open>runs = NaN\<close>, not 0; in the reducer a \<open>BOUNDARY\<close> with \<open>runs: 0\<close> takes the
  initial state to \<open>totalRuns = 4\<close>, not 0.
\<close>

theorem ball_boundary_event_counterexample:
  "applyEvent \<lparr>runs = Num 0, wickets = 0, overs = 0, balls = 0\<rparr>
       \<lparr>evt_id = ''5'', timestamp = ''10:20:00'', evt_type = ''BALL'',
        payload = Some \<lparr>p_runs = Undefined, p_status = Prim Undefined\<rparr>\<rparr>
     = Inr \<lparr>runs = NaN, wickets = 0, overs = 0, balls = 1\<rparr>
   \<and> applyEvent_reducer 1000 7 initialState
       \<lparr>evt_id = ''6'', timestamp = ''10:20:03'', evt_type = ''BOUNDARY'',
        payload = Some \<lparr>p_runs = Number (Num 0), p_status = Prim Undefined\<rparr>\<rparr>
     = Inr (\<lparr>totalRuns = 4, state_wickets = 0, state_balls = 1,
        commentary = [\<lparr>entry_event = \<lparr>evt_id = ''6'', timestamp = ''10:20:03'', evt_type = ''BOUNDARY'',
        payload = Some \<lparr>p_runs = Number (Num 0), p_status = Prim Undefined\<rparr>\<rparr>,
          entry_id = (1000, 7), receivedAt = 1000, displayRuns = Some 4, unknown = False\<rparr>],
        matchStatus = ''Live''\<rparr>, [])"
  by (simp add: applyEvent_def carry_and_clamp_def applyEvent_reducer_def Let_def addBall_def
      initialState_def payload_or_empty_def)

text \<open>
  C10. In the reducer, for every state, a \<open>BOUNDARY\<close> event whose \<open>payload.runs\<close> coerces
  to 0 or to \<open>NaN\<close> (so also an explicit \<open>runs: 0\<close>) adds exactly 4 to \<open>totalRuns\<close>.
\<close>

theorem boundary_default_on_falsy:
  assumes "evt_type e = ''BOUNDARY''"
    and "ToNumber (p_runs (payload_or_empty e)) = Num 0
         \<or> ToNumber (p_runs (payload_or_empty e)) = NaN"
  shows "\<exists>st'. applyEvent_reducer now rnd st e = Inr (st', [])
           \<and> totalRuns st' = totalRuns st + 4"
  using assms(2) by (auto simp: reducer_boundary[OF assms(1)])

theorem boundary_default_on_falsy_witness:
  "evt_type \<lparr>evt_id = ''6'', timestamp = ''10:20:03'', evt_type = ''BOUNDARY'',
        payload = Some \<lparr>p_runs = Number (Num 0), p_status = Prim Undefined\<rparr>\<rparr> = ''BOUNDARY''
   \<and> ToNumber (p_runs (payload_or_empty \<lparr>evt_id = ''6'', timestamp = ''10:20:03'', evt_type = ''BOUNDARY'',
        payload = Some \<lparr>p_runs = Number (Num 0), p_status = Prim Undefined\<rparr>\<rparr>)) = Num 0
   \<and> (\<exists>st'. applyEvent_reducer 1000 7
         \<lparr>totalRuns = 120, state_wickets = 3, state_balls = 92, commentary = [], matchStatus = ''Live''\<rparr>
         \<lparr>evt_id = ''6'', timestamp = ''10:20:03'', evt_type = ''BOUNDARY'',
        payload = Some \<lparr>p_runs = Number (Num 0), p_status = Prim Undefined\<rparr>\<rparr> = Inr (st', [])
       \<and> totalRuns st' = 124)
   \<and> ToNumber (p_runs (payload_or_empty
         \<lparr>evt_id = ''8'', timestamp = ''10:20:09'', evt_type = ''BOUNDARY'', payload = None\<rparr>)) = NaN
   \<and> (\<exists>st'. applyEvent_reducer 1000 7
         \<lparr>totalRuns = 120, state_wickets = 3, state_balls = 92, commentary = [], matchStatus = ''Live''\<rparr>
         \<lparr>evt_id = ''8'', timestamp = ''10:20:09'', evt_type = ''BOUNDARY'', payload = None\<rparr> = Inr (st', [])
       \<and> totalRuns st' = 124)"
proof -
  let ?e = "\<lparr>evt_id = ''6'', timestamp = ''10:20:03'', evt_type = ''BOUNDARY'',
        payload = Some \<lparr>p_runs = Number (Num 0), p_status = Prim Undefined\<rparr>\<rparr>"
  let ?f = "\<lparr>evt_id = ''8'', timestamp = ''10:20:09'', evt_type = ''BOUNDARY'', payload = None\<rparr>"
  have t: "evt_type ?e = ''BOUNDARY''" "evt_type ?f = ''BOUNDARY''" by simp_all
  have z: "ToNumber (p_runs (payload_or_empty ?e)) = Num 0"
    "ToNumber (p_runs (payload_or_empty ?f)) = NaN" by (simp_all add: payload_or_empty_def)
  from boundary_default_on_falsy[OF t(1), of 1000 7 "\<lparr>totalRuns = 120, state_wickets = 3, state_balls = 92, commentary = [], matchStatus = ''Live''\<rparr>"]
    boundary_default_on_falsy[OF t(2), of 1000 7 "\<lparr>totalRuns = 120, state_wickets = 3, state_balls = 92, commentary = [], matchStatus = ''Live''\<rparr>"] z t
  show ?thesis by simp
qed

text \<open>
  C9, as amended. The result of the reducer's \<open>applyEvent\<close> is determined by the state, the
  event, the clock reading and the random draw: between two calls on the same state and
  event, both throw or both return, and the results differ at most in the \<open>_id\<close> and
  \<open>_receivedAt\<close> of the newest commentary entry, which carry the clock reading and the
  random draw of the call. What a call passes to \<open>console.warn\<close> depends on the event
  type only: nothing for the four known types, one warning for any other.
\<close>

theorem reducer_result_up_to_stamps:
  "applyEvent_reducer now rnd st e =
     (case applyEvent_reducer now' rnd' st e of
        Inl err \<Rightarrow> Inl err
      | Inr (st', w) \<Rightarrow> Inr (st'\<lparr>commentary := restamp now rnd (commentary st')\<rparr>, w))
   \<and> (case applyEvent_reducer now rnd st e of
        Inl err \<Rightarrow> True
      | Inr (st', w) \<Rightarrow>
          w = (if evt_type e = ''BALL'' \<or> evt_type e = ''BOUNDARY'' \<or> evt_type e = ''WICKET''
                  \<or> evt_type e = ''MATCH_STATUS''
               then [] else [[''Unknown event type received:'', evt_type e]])
          \<and> (\<exists>x. commentary st' = x # commentary st
                 \<and> entry_id x = (now, rnd) \<and> receivedAt x = now \<and> entry_event x = e))"
proof -
  consider (ball) "evt_type e = ''BALL''" | (boundary) "evt_type e = ''BOUNDARY''"
    | (wicket) "evt_type e = ''WICKET''" | (status) "evt_type e = ''MATCH_STATUS''"
    | (other) "evt_type e \<noteq> ''BALL''" "evt_type e \<noteq> ''BOUNDARY''" "evt_type e \<noteq> ''WICKET''"
        "evt_type e \<noteq> ''MATCH_STATUS''"
    by blast
  then show ?thesis
  proof cases
    case ball
    then show ?thesis by (simp add: reducer_ball restamp_def)
  next
    case boundary
    then show ?thesis by (simp add: reducer_boundary restamp_def)
  next
    case wicket
    then show ?thesis by (simp add: reducer_wicket restamp_def)
  next
    case status
    then show ?thesis by (simp add: reducer_match_status restamp_def split: jsval.split)
  next
    case other
    then show ?thesis by (simp add: reducer_unknown restamp_def)
  qed
qed

theorem reducer_result_up_to_stamps_witness:
  "applyEvent_reducer 1000 7 initialState
       \<lparr>evt_id = ''2'', timestamp = ''10:00:03'', evt_type = ''BALL'',
        payload = Some \<lparr>p_runs = Number (Num 1), p_status = Prim Undefined\<rparr>\<rparr>
   = Inr (\<lparr>totalRuns = 1, state_wickets = 0, state_balls = 1,
        commentary = [\<lparr>entry_event = \<lparr>evt_id = ''2'', timestamp = ''10:00:03'', evt_type = ''BALL'',
        payload = Some \<lparr>p_runs = Number (Num 1), p_status = Prim Undefined\<rparr>\<rparr>,
          entry_id = (1000, 7), receivedAt = 1000, displayRuns = Some 1, unknown = False\<rparr>],
        matchStatus = ''Live''\<rparr>, [])"
proof -
  have "applyEvent_reducer 2000 8 initialState
       \<lparr>evt_id = ''2'', timestamp = ''10:00:03'', evt_type = ''BALL'',
        payload = Some \<lparr>p_runs = Number (Num 1), p_status = Prim Undefined\<rparr>\<rparr>
   = Inr (\<lparr>totalRuns = 1, state_wickets = 0, state_balls = 1,
        commentary = [\<lparr>entry_event = \<lparr>evt_id = ''2'', timestamp = ''10:00:03'', evt_type = ''BALL'',
        payload = Some \<lparr>p_runs = Number (Num 1), p_status = Prim Undefined\<rparr>\<rparr>,
          entry_id = (2000, 8), receivedAt = 2000, displayRuns = Some 1, unknown = False\<rparr>],
        matchStatus = ''Live''\<rparr>, [])"
    by (simp add: reducer_ball initialState_def payload_or_empty_def)
  with reducer_result_up_to_stamps[of 1000 7 initialState
       "\<lparr>evt_id = ''2'', timestamp = ''10:00:03'', evt_type = ''BALL'',
        payload = Some \<lparr>p_runs = Number (Num 1), p_status = Prim Undefined\<rparr>\<rparr>" 2000 8]
  show ?thesis by (simp add: restamp_def)
qed

text \<open>
  C9 as stated fails on the reducer: two calls on the initial state and the same
  \<open>BALL\<close> event, one second apart, return different states; and a call with an event of
  unknown type writes a warning to the console.
\<close>

theorem reducer_purity_counterexample:
  "applyEvent_reducer 1000 7 initialState
       \<lparr>evt_id = ''2'', timestamp = ''10:00:03'', evt_type = ''BALL'',
        payload = Some \<lparr>p_runs = Number (Num 1), p_status = Prim Undefined\<rparr>\<rparr>
   \<noteq> applyEvent_reducer 2000 7 initialState
       \<lparr>evt_id = ''2'', timestamp = ''10:00:03'', evt_type = ''BALL'',
        payload = Some \<lparr>p_runs = Number (Num 1), p_status = Prim Undefined\<rparr>\<rparr>
   \<and> applyEvent_reducer 1000 7 initialState
       \<lparr>evt_id = ''8'', timestamp = ''10:25:00'', evt_type = ''UNKNOWN_EVENT'', payload = None\<rparr>
     = Inr (\<lparr>totalRuns = 0, state_wickets = 0, state_balls = 0,
        commentary = [\<lparr>entry_event = \<lparr>evt_id = ''8'', timestamp = ''10:25:00'', evt_type = ''UNKNOWN_EVENT'', payload = None\<rparr>,
          entry_id = (1000, 7), receivedAt = 1000, displayRuns = None, unknown = True\<rparr>],
        matchStatus = ''Live''\<rparr>,
       [[''Unknown event type received:'', ''UNKNOWN_EVENT'']])"
  by (simp add: reducer_ball reducer_unknown initialState_def)


end
